theory Spec2Isabelle
  imports Complex_Main "HOL-Library.Stream"
begin

section \<open>On-the-fly slice datasets of kits19cnn/io/dataset_onthefly.py\<close>

text \<open>
  The module defines two classes: \<^verbatim>\<open>SliceDatasetOnTheFly\<close> and its subclass
  \<^verbatim>\<open>PseudoSliceDatasetOnTheFly\<close>. Their methods read the attributes of \<^verbatim>\<open>self\<close>,
  draw from numpy's process-wide random source and read \<^verbatim>\<open>.npy\<close> files. The model
  threads the object and the random source through every method as an explicit state,
  with every exception of the Python code as a value.

  Numbers. Python integers are \<open>int\<close>. Probabilities and array elements are rationals
  (every finite double is one) and the arithmetic on them is exact: the rounding of
  floating-point operations is not modelled.
\<close>

subsection \<open>Exceptions\<close>

text \<open>
  One constructor per exception class the module can raise, with the message, key or path
  where the code has one. \<open>CollaboratorError\<close> stands for any exception raised inside one of
  the two external callables (\<^verbatim>\<open>transforms\<close>, \<^verbatim>\<open>preprocessing\<close>), whatever its class.
\<close>

datatype error =
    AssertionError string
  | IndexError
  | KeyError string
  | ValueError string
  | FileNotFoundError string
  | TypeError string
  | AttributeError string
  | CollaboratorError string

subsection \<open>Arrays\<close>

text \<open>
  A numpy array is its shape, its element type and its elements by index. The files hold
  two-dimensional arrays; the methods build three-dimensional ones (height, width,
  channels). Elements outside the shape carry no meaning.
\<close>

datatype dtype = UInt8 | Int16 | Int32 | Int64 | Float32 | Float64

record array2 =
  shape2 :: "nat \<times> nat"
  dtype2 :: dtype
  at2 :: "nat \<Rightarrow> nat \<Rightarrow> rat"

record array3 =
  shape3 :: "nat \<times> nat \<times> nat"
  dtype3 :: dtype
  at3 :: "nat \<Rightarrow> nat \<Rightarrow> nat \<Rightarrow> rat"

text \<open>\<^verbatim>\<open>a[:, :, None]\<close> on a two-dimensional array: a trailing axis of length one.\<close>

definition add_channel_axis :: "array2 \<Rightarrow> array3" where
  "add_channel_axis a =
     \<lparr>shape3 = (fst (shape2 a), snd (shape2 a), 1), dtype3 = dtype2 a,
      at3 = (\<lambda>i j c. at2 a i j)\<rparr>"

text \<open>\<^verbatim>\<open>np.zeros(shape)\<close>: float64 zeros.\<close>

definition np_zeros :: "nat \<times> nat \<times> nat \<Rightarrow> array3" where
  "np_zeros sh = \<lparr>shape3 = sh, dtype3 = Float64, at3 = (\<lambda>i j c. 0)\<rparr>"

text \<open>
  \<^verbatim>\<open>x_arr[:, :, idx] = b\<close> for a two-dimensional \<open>b\<close>: numpy broadcasts \<open>b\<close> to the
  (height, width) of \<open>x_arr\<close>, which needs each axis of \<open>b\<close> to have that length or
  length one, and raises ValueError otherwise. The element type of \<open>x_arr\<close> stays.
\<close>

definition broadcast_msg :: string where
  "broadcast_msg = ''could not broadcast input array''"

definition set_channel :: "array3 \<Rightarrow> nat \<Rightarrow> array2 \<Rightarrow> error + array3" where
  "set_channel x idx b =
     (case shape3 x of (H, W, C) \<Rightarrow>
      case shape2 b of (h, w) \<Rightarrow>
        if C \<le> idx then Inl IndexError
        else if (h = H \<or> h = 1) \<and> (w = W \<or> w = 1) then
          Inr (x\<lparr>at3 := (\<lambda>i j c. if c = idx
                                  then at2 b (if h = 1 then 0 else i) (if w = 1 then 0 else j)
                                  else at3 x i j c)\<rparr>)
        else Inl (ValueError broadcast_msg))"

subsection \<open>Storage and paths\<close>

text \<open>
  The file system maps a path to the two-dimensional array stored there. \<^verbatim>\<open>np.load\<close>
  raises FileNotFoundError on a missing path; \<^verbatim>\<open>os.path.isfile\<close> tests for one.
\<close>

type_synonym storage = "string \<rightharpoonup> array2"

definition np_load :: "storage \<Rightarrow> string \<Rightarrow> error + array2" where
  "np_load fs path = (case fs path of None \<Rightarrow> Inl (FileNotFoundError path) | Some a \<Rightarrow> Inr a)"

definition isfile :: "storage \<Rightarrow> string \<Rightarrow> bool" where
  "isfile fs path = (fs path \<noteq> None)"

text \<open>\<^verbatim>\<open>os.path.join(a, b)\<close> of posixpath.\<close>

definition join :: "string \<Rightarrow> string \<Rightarrow> string" where
  "join a b =
     (if b \<noteq> [] \<and> hd b = CHR ''/'' then b
      else if a = [] \<or> last a = CHR ''/'' then a @ b
      else a @ ''/'' @ b)"

definition imaging_name :: "string \<Rightarrow> string" where
  "imaging_name slice_idx_str = ''imaging_'' @ slice_idx_str @ ''.npy''"

definition segmentation_name :: "string \<Rightarrow> string" where
  "segmentation_name slice_idx_str = ''segmentation_'' @ slice_idx_str @ ''.npy''"

subsection \<open>The objects and the state\<close>

text \<open>
  The value handed to and returned by a transform stage is a numpy array or already a
  torch tensor. A stage is an external callable: it returns its two outputs or raises.
\<close>

datatype payload = NdArray array3 | Tensor array3

type_synonym stage = "payload \<Rightarrow> payload \<Rightarrow> string + payload \<times> payload"

text \<open>
  The attributes of a \<^verbatim>\<open>SliceDatasetOnTheFly\<close>. The catalog \<^verbatim>\<open>pos_slice_dict\<close> is a
  dictionary of dictionaries; the order of its keys matters (\<^verbatim>\<open>log_class_indices\<close>
  takes the first), so it is an association list. The subclass adds one attribute.
\<close>

record dataset =
  im_ids :: "string list"
  in_dir :: string
  pos_slice_dict :: "(string \<times> (string \<times> int list) list) list"
  transforms :: "stage option"
  preprocessing :: "stage option"
  sampling_distribution :: "rat list"
  classes :: "string list"

record pseudo_dataset = dataset +
  num_pseudo_slices :: int

text \<open>
  The state a method runs in: the object and numpy's global random source, an endless
  supply of raw draws.
\<close>

record 'd world =
  self :: 'd
  rng :: "nat stream"

type_synonym ('d, 'a) action = "'d world \<Rightarrow> (error + 'a) \<times> 'd world"

definition return :: "'a \<Rightarrow> ('d, 'a) action" where
  "return a s = (Inr a, s)"

definition raise :: "error \<Rightarrow> ('d, 'a) action" where
  "raise e s = (Inl e, s)"

definition lift :: "error + 'a \<Rightarrow> ('d, 'a) action" where
  "lift r s = (r, s)"

definition attr :: "('d \<Rightarrow> 'a) \<Rightarrow> ('d, 'a) action" where
  "attr f s = (Inr (f (self s)), s)"

definition mbind :: "('d, 'a) action \<Rightarrow> ('a \<Rightarrow> ('d, 'b) action) \<Rightarrow> ('d, 'b) action" where
  "mbind m f s = (case m s of (Inl e, s') \<Rightarrow> (Inl e, s') | (Inr a, s') \<Rightarrow> f a s')"

subsection \<open>Python and numpy primitives\<close>

text \<open>Indexing a sequence with a Python integer: a negative index counts from the end.\<close>

definition getitem_seq :: "'a list \<Rightarrow> int \<Rightarrow> error + 'a" where
  "getitem_seq xs i =
     (if i < - int (length xs) \<or> int (length xs) \<le> i then Inl IndexError
      else if i < 0 then Inr (xs ! nat (int (length xs) + i))
      else Inr (xs ! nat i))"

text \<open>\<^verbatim>\<open>d[k]\<close> on a dictionary with string keys.\<close>

definition getitem_dict :: "(string \<times> 'v) list \<Rightarrow> string \<Rightarrow> error + 'v" where
  "getitem_dict d k = (case map_of d k of None \<Rightarrow> Inl (KeyError k) | Some v \<Rightarrow> Inr v)"

text \<open>\<^verbatim>\<open>np.sum\<close> of a list of probabilities.\<close>

definition np_sum :: "rat list \<Rightarrow> rat" where
  "np_sum xs = sum_list xs"

text \<open>
  The two primitives of the random source that \<^verbatim>\<open>np.random.choice\<close> uses:
  \<^verbatim>\<open>random_sample()\<close> gives a double \<open>k / 2^53\<close> with \<open>0 \<le> k < 2^53\<close>, and
  \<^verbatim>\<open>randint(0, n)\<close> gives an integer in \<open>[0, n)\<close>. Each consumes one raw draw.
\<close>

definition random_sample :: "('d, rat) action" where
  "random_sample s = (Inr (of_nat (shd (rng s) mod 2 ^ 53) / 2 ^ 53), s\<lparr>rng := stl (rng s)\<rparr>)"

definition randint :: "nat \<Rightarrow> ('d, nat) action" where
  "randint n s = (Inr (shd (rng s) mod n), s\<lparr>rng := stl (rng s)\<rparr>)"

text \<open>\<^verbatim>\<open>p.cumsum()\<close> and \<^verbatim>\<open>cdf.searchsorted(u, side='right')\<close> on a sorted array.\<close>

fun cumsum_from :: "rat \<Rightarrow> rat list \<Rightarrow> rat list" where
  "cumsum_from acc [] = []"
| "cumsum_from acc (x # xs) = (acc + x) # cumsum_from (acc + x) xs"

definition cumsum :: "rat list \<Rightarrow> rat list" where
  "cumsum xs = cumsum_from 0 xs"

definition searchsorted_right :: "rat list \<Rightarrow> rat \<Rightarrow> nat" where
  "searchsorted_right cdf u = length (takeWhile (\<lambda>c. c \<le> u) cdf)"

text \<open>
  \<^verbatim>\<open>np.random.choice(a, p=p)\<close> and \<^verbatim>\<open>np.random.choice(a)\<close> of numpy's legacy
  \<^verbatim>\<open>RandomState\<close>, for a one-dimensional \<open>a\<close> and a single sample. The checks of the
  arguments all raise ValueError; the tolerance on the sum is the square root of the
  double's machine epsilon, \<open>2^-26\<close>.
\<close>

definition choice_empty_msg :: string where
  "choice_empty_msg = ''a cannot be empty unless no samples are taken''"

definition choice_size_msg :: string where
  "choice_size_msg = ''a and p must have same size''"

definition choice_negative_msg :: string where
  "choice_negative_msg = ''probabilities are not non-negative''"

definition choice_sum_msg :: string where
  "choice_sum_msg = ''probabilities do not sum to 1''"

definition np_random_choice_p :: "'a list \<Rightarrow> rat list \<Rightarrow> ('d, 'a) action" where
  "np_random_choice_p a p =
     (if a = [] then raise (ValueError choice_empty_msg)
      else if length p \<noteq> length a then raise (ValueError choice_size_msg)
      else if \<exists>x \<in> set p. x < 0 then raise (ValueError choice_negative_msg)
      else if \<bar>sum_list p - 1\<bar> > 1 / 2 ^ 26 then raise (ValueError choice_sum_msg)
      else mbind random_sample (\<lambda>u.
             let cdf = cumsum p;
                 cdf = map (\<lambda>c. c / last cdf) cdf;
                 idx = searchsorted_right cdf u
             in lift (getitem_seq a (int idx))))"

definition np_random_choice :: "'a list \<Rightarrow> ('d, 'a) action" where
  "np_random_choice a =
     (if a = [] then raise (ValueError choice_empty_msg)
      else mbind (randint (length a)) (\<lambda>idx. lift (getitem_seq a (int idx))))"

subsection \<open>SliceDatasetOnTheFly\<close>

definition log_class_indices :: "'m dataset_scheme \<Rightarrow> error + 'm dataset_scheme" where
  "log_class_indices ds =
     (case getitem_seq (map fst (pos_slice_dict ds)) 0 of
        Inl e \<Rightarrow> Inl e
      | Inr dummy_key \<Rightarrow>
          (case getitem_dict (pos_slice_dict ds) dummy_key of
             Inl e \<Rightarrow> Inl e
           | Inr dummy_value \<Rightarrow> Inr (ds\<lparr>classes := map fst dummy_value\<rparr>)))"

definition sum_msg :: string where
  "sum_msg = ''The sum of the sampling distribution probabilities should be 1.''"

text \<open>
  \<^verbatim>\<open>__init__\<close>: the attributes are assigned, the sum is asserted, the classes are
  logged. Before \<^verbatim>\<open>log_class_indices\<close> the attribute \<^verbatim>\<open>classes\<close> does not exist; the
  record holds the empty list there. The two \<^verbatim>\<open>print\<close> calls are left out.
\<close>

definition init ::
  "string list \<Rightarrow> string \<Rightarrow> (string \<times> (string \<times> int list) list) list \<Rightarrow> stage option \<Rightarrow>
   stage option \<Rightarrow> rat list \<Rightarrow> error + dataset" where
  "init ids dir psd tr pp sdist =
     (let ds = \<lparr>im_ids = ids, in_dir = dir, pos_slice_dict = psd, transforms = tr,
                preprocessing = pp, sampling_distribution = sdist, classes = []\<rparr>
      in if np_sum sdist = 1 then log_class_indices ds else Inl (AssertionError sum_msg))"

definition len :: "('m dataset_scheme, nat) action" where
  "len = mbind (attr im_ids) (\<lambda>ids. return (length ids))"

definition get_slice_idx :: "string \<Rightarrow> ('m dataset_scheme, int) action" where
  "get_slice_idx case_raw =
     mbind (attr classes) (\<lambda>cls.
     mbind (attr sampling_distribution) (\<lambda>p.
     mbind (np_random_choice_p cls p) (\<lambda>sampled_class.
     mbind (attr pos_slice_dict) (\<lambda>psd.
     mbind (lift (getitem_dict psd case_raw)) (\<lambda>per_class.
     mbind (lift (getitem_dict per_class sampled_class)) (\<lambda>slice_indices.
     np_random_choice slice_indices))))))"

text \<open>
  \<^verbatim>\<open>parse_slice_idx_to_str\<close> is imported from \<^verbatim>\<open>.preprocess\<close>; the methods take it as
  the parameter \<open>to_str\<close>.
\<close>

definition get_slice_idx_str ::
  "(int \<Rightarrow> string) \<Rightarrow> string \<Rightarrow> ('m dataset_scheme, string \<times> int) action" where
  "get_slice_idx_str to_str case_raw =
     mbind (get_slice_idx case_raw) (\<lambda>slice_idx. return (to_str slice_idx, slice_idx))"

definition load_slices ::
  "(int \<Rightarrow> string) \<Rightarrow> storage \<Rightarrow> string \<Rightarrow> ('m dataset_scheme, array3 \<times> array3) action" where
  "load_slices to_str fs case_raw =
     mbind (get_slice_idx_str to_str case_raw) (\<lambda>(slice_idx_str, _).
     mbind (attr in_dir) (\<lambda>dir.
       let case_fpath = join dir case_raw;
           x_path = join case_fpath (imaging_name slice_idx_str);
           y_path = join case_fpath (segmentation_name slice_idx_str)
       in mbind (lift (np_load fs x_path)) (\<lambda>x.
          mbind (lift (np_load fs y_path)) (\<lambda>y.
          return (add_channel_axis x, add_channel_axis y)))))"

definition call_stage :: "stage \<Rightarrow> payload \<Rightarrow> payload \<Rightarrow> ('d, payload \<times> payload) action" where
  "call_stage f x y =
     (case f x y of Inl msg \<Rightarrow> raise (CollaboratorError msg) | Inr r \<Rightarrow> return r)"

definition apply_transforms_and_preprocessing ::
  "payload \<Rightarrow> payload \<Rightarrow> ('m dataset_scheme, payload \<times> payload) action" where
  "apply_transforms_and_preprocessing x y =
     mbind (attr transforms) (\<lambda>tr.
     mbind (case tr of None \<Rightarrow> return (x, y) | Some f \<Rightarrow> call_stage f x y) (\<lambda>(x, y).
     mbind (attr preprocessing) (\<lambda>pp.
     mbind (case pp of None \<Rightarrow> return (x, y) | Some f \<Rightarrow> call_stage f x y) (\<lambda>(x, y).
     return (x, y)))))"

text \<open>
  \<^verbatim>\<open>torch.from_numpy(x) if isinstance(x, np.ndarray) else x\<close>, then \<^verbatim>\<open>.float()\<close> and
  \<^verbatim>\<open>.long()\<close>, which only a tensor has. \<^verbatim>\<open>.long()\<close> truncates towards zero.
\<close>

definition from_numpy_if_array :: "payload \<Rightarrow> payload" where
  "from_numpy_if_array p = (case p of NdArray a \<Rightarrow> Tensor a | Tensor t \<Rightarrow> Tensor t)"

definition truncate :: "rat \<Rightarrow> rat" where
  "truncate q = (if 0 \<le> q then of_int \<lfloor>q\<rfloor> else of_int \<lceil>q\<rceil>)"

definition tensor_float :: "payload \<Rightarrow> error + payload" where
  "tensor_float p =
     (case p of NdArray a \<Rightarrow> Inl (AttributeError ''float'')
      | Tensor t \<Rightarrow> Inr (Tensor (t\<lparr>dtype3 := Float32\<rparr>)))"

definition tensor_long :: "payload \<Rightarrow> error + payload" where
  "tensor_long p =
     (case p of NdArray a \<Rightarrow> Inl (AttributeError ''long'')
      | Tensor t \<Rightarrow> Inr (Tensor (t\<lparr>dtype3 := Int64, at3 := (\<lambda>i j c. truncate (at3 t i j c))\<rparr>)))"

text \<open>
  \<^verbatim>\<open>x, y = self.load_slices(case_id)\<close>: unpacking \<^verbatim>\<open>None\<close> raises TypeError.
\<close>

definition unpack_msg :: string where
  "unpack_msg = ''cannot unpack non-iterable NoneType object''"

definition unpack_pair :: "('a \<times> 'b) option \<Rightarrow> error + 'a \<times> 'b" where
  "unpack_pair r = (case r of None \<Rightarrow> Inl (TypeError unpack_msg) | Some xy \<Rightarrow> Inr xy)"

text \<open>
  \<^verbatim>\<open>__getitem__\<close> is inherited by the subclass and calls \<^verbatim>\<open>self.load_slices\<close>, the
  implementation of the object's own class: the model takes that method as the argument
  \<open>load\<close>, returning \<open>None\<close> where the Python method returns \<^verbatim>\<open>None\<close>.
\<close>

definition getitem_with ::
  "(string \<Rightarrow> ('m dataset_scheme, (array3 \<times> array3) option) action) \<Rightarrow> int \<Rightarrow>
   ('m dataset_scheme, payload \<times> payload) action" where
  "getitem_with load idx =
     mbind (attr im_ids) (\<lambda>ids.
     mbind (lift (getitem_seq ids idx)) (\<lambda>case_id.
     mbind (load case_id) (\<lambda>r.
     mbind (lift (unpack_pair r)) (\<lambda>(x, y).
     mbind (apply_transforms_and_preprocessing (NdArray x) (NdArray y)) (\<lambda>(x, y).
       let x = from_numpy_if_array x;
           y = from_numpy_if_array y
       in mbind (lift (tensor_float x)) (\<lambda>xf.
          mbind (lift (tensor_long y)) (\<lambda>yl.
          return (xf, yl))))))))"

definition getitem ::
  "(int \<Rightarrow> string) \<Rightarrow> storage \<Rightarrow> int \<Rightarrow> ('m dataset_scheme, payload \<times> payload) action" where
  "getitem to_str fs idx =
     getitem_with (\<lambda>case_raw. mbind (load_slices to_str fs case_raw) (\<lambda>r. return (Some r))) idx"

subsection \<open>PseudoSliceDatasetOnTheFly\<close>

definition odd_msg :: string where
  "odd_msg = ''`num_pseudo_slices` must be odd. i.e. 7 -> 3 above and 3 below''"

text \<open>
  \<^verbatim>\<open>__init__\<close> of the subclass: the constructor of the base class runs first, then the
  attribute is assigned and its oddness asserted. Python's \<^verbatim>\<open>%\<close> and \<^verbatim>\<open>//\<close> round
  towards minus infinity, as \<open>mod\<close> and \<open>div\<close> on \<open>int\<close> do.
\<close>

definition pseudo_init ::
  "string list \<Rightarrow> string \<Rightarrow> (string \<times> (string \<times> int list) list) list \<Rightarrow> stage option \<Rightarrow>
   stage option \<Rightarrow> rat list \<Rightarrow> int \<Rightarrow> error + pseudo_dataset" where
  "pseudo_init ids dir psd tr pp sdist n =
     (case init ids dir psd tr pp sdist of
        Inl e \<Rightarrow> Inl e
      | Inr ds \<Rightarrow>
          if n mod 2 = 1 then
            Inr \<lparr>im_ids = im_ids ds, in_dir = in_dir ds, pos_slice_dict = pos_slice_dict ds,
                 transforms = transforms ds, preprocessing = preprocessing ds,
                 sampling_distribution = sampling_distribution ds, classes = classes ds,
                 num_pseudo_slices = n\<rparr>
          else Inl (AssertionError odd_msg))"

text \<open>\<^verbatim>\<open>enumerate(range(lo, hi))\<close>.\<close>

definition enumerate_range :: "int \<Rightarrow> int \<Rightarrow> (nat \<times> int) list" where
  "enumerate_range lo hi = (let r = [lo..hi - 1] in zip [0..<length r] r)"

text \<open>The loop over the window: a channel is written only when its file exists.\<close>

fun fill_channels ::
  "(int \<Rightarrow> string) \<Rightarrow> storage \<Rightarrow> string \<Rightarrow> (nat \<times> int) list \<Rightarrow> array3 \<Rightarrow> error + array3" where
  "fill_channels to_str fs case_fpath [] x_arr = Inr x_arr"
| "fill_channels to_str fs case_fpath ((idx, slice_idx) # rest) x_arr =
     (let slice_idx_str = to_str slice_idx;
          x_path = join case_fpath (imaging_name slice_idx_str)
      in if isfile fs x_path then
           (case np_load fs x_path of
              Inl e \<Rightarrow> Inl e
            | Inr b \<Rightarrow>
                (case set_channel x_arr idx b of
                   Inl e \<Rightarrow> Inl e
                 | Inr x_arr' \<Rightarrow> fill_channels to_str fs case_fpath rest x_arr'))
         else fill_channels to_str fs case_fpath rest x_arr)"

text \<open>
  \<^verbatim>\<open>load_slices\<close> of the subclass. With \<^verbatim>\<open>num_pseudo_slices\<close> below one neither branch
  of the \<^verbatim>\<open>if\<close>/\<^verbatim>\<open>elif\<close> is taken and the method returns \<^verbatim>\<open>None\<close>.
\<close>

definition pseudo_load_slices ::
  "(int \<Rightarrow> string) \<Rightarrow> storage \<Rightarrow> string \<Rightarrow>
   ('m pseudo_dataset_scheme, (array3 \<times> array3) option) action" where
  "pseudo_load_slices to_str fs case_raw =
     mbind (attr in_dir) (\<lambda>dir.
       let case_fpath = join dir case_raw
       in mbind (get_slice_idx_str to_str case_raw) (\<lambda>(center_slice_idx_str, center_slice_idx).
          mbind (attr num_pseudo_slices) (\<lambda>n.
            let lo = center_slice_idx - (n - 1) div 2;
                hi = center_slice_idx + (n - 1) div 2 + 1;
                x_path = join case_fpath (imaging_name center_slice_idx_str);
                y_path = join case_fpath (segmentation_name center_slice_idx_str)
            in mbind (lift (np_load fs x_path)) (\<lambda>cx.
               mbind (lift (np_load fs y_path)) (\<lambda>cy.
                 let center_x = add_channel_axis cx;
                     center_y = add_channel_axis cy
                 in if n = 1 then return (Some (center_x, center_y))
                    else if n > 1 then
                      (case shape3 center_x of (H, W, _) \<Rightarrow>
                         mbind (lift (fill_channels to_str fs case_fpath (enumerate_range lo hi)
                                        (np_zeros (H, W, nat n))))
                           (\<lambda>x_arr. return (Some (x_arr, center_y))))
                    else return None)))))"

definition pseudo_getitem ::
  "(int \<Rightarrow> string) \<Rightarrow> storage \<Rightarrow> int \<Rightarrow> ('m pseudo_dataset_scheme, payload \<times> payload) action" where
  "pseudo_getitem to_str fs idx = getitem_with (pseudo_load_slices to_str fs) idx"

subsection \<open>The file-name helper and a small data set\<close>

text \<open>
  Modelled from the spec: \<^verbatim>\<open>parse_slice_idx_to_str\<close> of \<^verbatim>\<open>kits19cnn/io/preprocess.py\<close>,
  which is not among the sources. The spec gives a fixed-width zero-padded decimal string
  for the non-negative indices; the width is a parameter here, and a negative index
  is given a minus sign in front, within the same width.
\<close>

definition digit_char :: "nat \<Rightarrow> char" where
  "digit_char d = ''0123456789'' ! d"

function decimal :: "nat \<Rightarrow> string" where
  "decimal n = (if n < 10 then [digit_char n] else decimal (n div 10) @ [digit_char (n mod 10)])"
  by pat_completeness auto
termination
  by (relation "measure id") auto

definition zero_pad :: "nat \<Rightarrow> string \<Rightarrow> string" where
  "zero_pad width s = replicate (width - length s) (CHR ''0'') @ s"

definition parse_slice_idx_to_str :: "nat \<Rightarrow> int \<Rightarrow> string" where
  "parse_slice_idx_to_str width i =
     (if 0 \<le> i then zero_pad width (decimal (nat i))
      else CHR ''-'' # zero_pad (width - 1) (decimal (nat (- i))))"

text \<open>
  A case of four stored slices, 5 to 8, of two rows and two columns each; slice \<open>k\<close>
  holds the value \<open>10 k + 2 i + j\<close> at row \<open>i\<close>, column \<open>j\<close>, and its mask holds \<open>1\<close> on
  the diagonal. The catalog is the one of the spec's scenario.
\<close>

definition demo_image :: "nat \<Rightarrow> array2" where
  "demo_image k =
     \<lparr>shape2 = (2, 2), dtype2 = Int16, at2 = (\<lambda>i j. of_nat (10 * k + 2 * i + j))\<rparr>"

definition demo_mask :: array2 where
  "demo_mask = \<lparr>shape2 = (2, 2), dtype2 = UInt8, at2 = (\<lambda>i j. if i = j then 1 else 0)\<rparr>"

definition demo_fs :: storage where
  "demo_fs =
     [''data/case01/imaging_005.npy'' \<mapsto> demo_image 5,
      ''data/case01/imaging_006.npy'' \<mapsto> demo_image 6,
      ''data/case01/imaging_007.npy'' \<mapsto> demo_image 7,
      ''data/case01/imaging_008.npy'' \<mapsto> demo_image 8,
      ''data/case01/segmentation_005.npy'' \<mapsto> demo_mask,
      ''data/case01/segmentation_006.npy'' \<mapsto> demo_mask,
      ''data/case01/segmentation_007.npy'' \<mapsto> demo_mask,
      ''data/case01/segmentation_008.npy'' \<mapsto> demo_mask]"

definition demo_catalog :: "(string \<times> (string \<times> int list) list) list" where
  "demo_catalog =
     [(''case01'', [(''bg'', [0, 1, 2]), (''kidney'', [5, 6]), (''tumor'', [7])])]"

definition demo_dataset :: dataset where
  "demo_dataset =
     \<lparr>im_ids = [''case01''], in_dir = ''data'', pos_slice_dict = demo_catalog,
      transforms = None, preprocessing = None, sampling_distribution = [0, 0, 1],
      classes = [''bg'', ''kidney'', ''tumor'']\<rparr>"

definition demo_pseudo_dataset :: "int \<Rightarrow> pseudo_dataset" where
  "demo_pseudo_dataset n =
     \<lparr>im_ids = [''case01''], in_dir = ''data'', pos_slice_dict = demo_catalog,
      transforms = None, preprocessing = None, sampling_distribution = [0, 0, 1],
      classes = [''bg'', ''kidney'', ''tumor''], num_pseudo_slices = n\<rparr>"

definition demo_world :: "'d \<Rightarrow> 'd world" where
  "demo_world d = \<lparr>self = d, rng = sconst 0\<rparr>"

subsection \<open>Notions used in the statements\<close>

text \<open>A method never raises the exception \<open>e\<close>.\<close>

definition never :: "error \<Rightarrow> ('d, 'a) action \<Rightarrow> bool" where
  "never e m = (\<forall>s. fst (m s) \<noteq> Inl e)"

text \<open>
  The arguments \<^verbatim>\<open>np.random.choice(a, p=p)\<close> accepts, and the position it then draws:
  the first of the normalised cumulative sums above the sample.
\<close>

definition accepted :: "'a list \<Rightarrow> rat list \<Rightarrow> bool" where
  "accepted a p \<longleftrightarrow>
     a \<noteq> [] \<and> length p = length a \<and> (\<forall>x \<in> set p. 0 \<le> x) \<and> \<bar>sum_list p - 1\<bar> \<le> 1 / 2 ^ 26"

definition class_index :: "rat list \<Rightarrow> 'd world \<Rightarrow> nat" where
  "class_index p s =
     searchsorted_right (map (\<lambda>c. c / last (cumsum p)) (cumsum p))
       (of_nat (shd (rng s) mod 2 ^ 53) / 2 ^ 53)"

text \<open>
  The state \<open>s'\<close> differs from \<open>s\<close> at most in the random source, which has given out
  at most \<open>n\<close> raw draws; and a method that changes the state in no other way.
\<close>

definition unchanged_but_entropy :: "nat \<Rightarrow> 'd world \<Rightarrow> 'd world \<Rightarrow> bool" where
  "unchanged_but_entropy n s s' \<longleftrightarrow> self s' = self s \<and> (\<exists>k \<le> n. rng s' = sdrop k (rng s))"

definition consumes :: "nat \<Rightarrow> ('d, 'a) action \<Rightarrow> bool" where
  "consumes n m = (\<forall>s. unchanged_but_entropy n s (snd (m s)))"

text \<open>
  The half width of the window, \<^verbatim>\<open>(self.num_pseudo_slices - 1) // 2\<close>, and the path of
  the image file of slice \<open>i\<close> of a case.
\<close>

definition half_width :: "int \<Rightarrow> int" where
  "half_width n = (n - 1) div 2"

definition image_path :: "(int \<Rightarrow> string) \<Rightarrow> string \<Rightarrow> string \<Rightarrow> int \<Rightarrow> string" where
  "image_path to_str dir case_raw i = join (join dir case_raw) (imaging_name (to_str i))"

definition mask_path :: "(int \<Rightarrow> string) \<Rightarrow> string \<Rightarrow> string \<Rightarrow> int \<Rightarrow> string" where
  "mask_path to_str dir case_raw i = join (join dir case_raw) (segmentation_name (to_str i))"

section \<open>Properties\<close>

subsection \<open>The state monad and the primitives\<close>

lemma mbind_return [simp]: "mbind (return a) f = f a"
  by (rule ext) (simp add: mbind_def return_def)

lemma mbind_raise [simp]: "mbind (raise e) f = raise e"
  by (rule ext) (simp add: mbind_def raise_def)

lemma mbind_lift_Inr [simp]: "mbind (lift (Inr a)) f = f a"
  by (rule ext) (simp add: mbind_def lift_def)

lemma mbind_lift_Inl [simp]: "mbind (lift (Inl e)) f = raise e"
  by (rule ext) (simp add: mbind_def lift_def raise_def)

lemma mbind_attr [simp]: "mbind (attr g) f s = f (g (self s)) s"
  by (simp add: mbind_def attr_def)

lemma return_apply [simp]: "return a s = (Inr a, s)"
  by (simp add: return_def)

lemma raise_apply [simp]: "raise e s = (Inl e, s)"
  by (simp add: raise_def)

lemma mbind_Inr: "m s = (Inr a, s') \<Longrightarrow> mbind m f s = f a s'"
  by (simp add: mbind_def)

lemma mbind_Inl: "m s = (Inl e, s') \<Longrightarrow> mbind m f s = (Inl e, s')"
  by (simp add: mbind_def)

lemma mbind_InrE:
  assumes "mbind m f s = (Inr b, s')"
  obtains a s1 where "m s = (Inr a, s1)" and "f a s1 = (Inr b, s')"
  using assms by (auto simp: mbind_def split: prod.splits sum.splits)

lemma never_mbind: "never e m \<Longrightarrow> (\<And>a. never e (f a)) \<Longrightarrow> never e (mbind m f)"
  by (auto simp: never_def mbind_def split: prod.splits sum.splits) (metis fst_conv)+

lemma never_return [simp]: "never e (return a)"
  by (simp add: never_def)

lemma never_raise [simp]: "never e (raise e') = (e' \<noteq> e)"
  by (simp add: never_def)

lemma never_attr [simp]: "never e (attr g)"
  by (simp add: never_def attr_def)

lemma never_lift [simp]: "never e (lift r) = (r \<noteq> Inl e)"
  by (simp add: never_def lift_def)

lemma never_random_sample [simp]: "never e random_sample"
  by (simp add: never_def random_sample_def)

lemma never_randint [simp]: "never e (randint n)"
  by (simp add: never_def randint_def)

lemma getitem_seq_nat: "k < length xs \<Longrightarrow> getitem_seq xs (int k) = Inr (xs ! k)"
  by (simp add: getitem_seq_def)

lemma getitem_seq_IndexError:
  "getitem_seq xs i = Inl IndexError \<longleftrightarrow> i < - int (length xs) \<or> int (length xs) \<le> i"
  by (auto simp: getitem_seq_def Let_def)


lemma cumsum_from_length [simp]: "length (cumsum_from acc xs) = length xs"
  by (induction xs arbitrary: acc) simp_all

lemma cumsum_from_Nil [simp]: "cumsum_from acc xs = [] \<longleftrightarrow> xs = []"
  by (cases xs) simp_all

lemma cumsum_from_last: "xs \<noteq> [] \<Longrightarrow> last (cumsum_from acc xs) = acc + sum_list xs"
proof (induction xs arbitrary: acc)
  case Nil
  then show ?case by simp
next
  case (Cons x xs)
  show ?case
  proof (cases "xs = []")
    case True
    then show ?thesis by simp
  next
    case False
    with Cons.IH [of "acc + x"] show ?thesis by (simp add: add.assoc)
  qed
qed

lemma searchsorted_right_less:
  assumes "cdf \<noteq> []" and "u < last cdf"
  shows "searchsorted_right cdf u < length cdf"
proof -
  have "takeWhile (\<lambda>c. c \<le> u) cdf \<noteq> cdf"
    using assms by (auto simp: takeWhile_eq_all_conv intro!: bexI [of _ "last cdf"])
  moreover have "length (takeWhile (\<lambda>c. c \<le> u) cdf) \<le> length cdf"
    by (rule length_takeWhile_le)
  ultimately show ?thesis
    unfolding searchsorted_right_def
    by (metis le_neq_implies_less takeWhile_eq_take take_all_iff order_refl)
qed


lemma raw_draw_less_1: "of_nat (k mod 2 ^ 53) / (2 ^ 53 :: rat) < 1"
proof -
  have "k mod 2 ^ 53 < (2 ^ 53 :: nat)" by (rule mod_less_divisor) (rule zero_less_power, rule zero_less_numeral)
  then have "(of_nat (k mod 2 ^ 53) :: rat) < of_nat (2 ^ 53)"
    by (rule of_nat_less_iff [THEN iffD2])
  also have "(of_nat (2 ^ 53) :: rat) = 2 ^ 53"
    by (simp only: of_nat_power of_nat_numeral)
  finally have "(of_nat (k mod 2 ^ 53) :: rat) < 2 ^ 53" .
  moreover have "(0::rat) < 2 ^ 53" by (rule zero_less_power) (rule zero_less_numeral)
  ultimately show ?thesis by (simp only: divide_less_eq_1_pos)
qed

lemma raw_draw_nonneg: "0 \<le> of_nat (k mod 2 ^ 53) / (2 ^ 53 :: rat)"
  by (rule divide_nonneg_nonneg) (rule of_nat_0_le_iff, rule zero_le_power, rule zero_le_numeral)

lemma class_index_less:
  assumes "accepted a p"
  shows "class_index p s < length a"
proof -
  let ?cdf = "cumsum p"
  let ?u = "of_nat (shd (rng s) mod 2 ^ 53) / (2 ^ 53 :: rat)"
  from assms have ne: "p \<noteq> []" and len: "length p = length a"
    and sum: "\<bar>sum_list p - 1\<bar> \<le> 1 / 2 ^ 26"
    by (auto simp: accepted_def)
  have last: "last ?cdf = sum_list p"
    using ne by (simp add: cumsum_def cumsum_from_last)
  have "(1::rat) / 2 ^ 26 < 1" by simp
  with sum have pos: "0 < sum_list p" by linarith
  have cne: "map (\<lambda>c. c / last ?cdf) ?cdf \<noteq> []"
    using ne by (simp add: cumsum_def)
  have "last (map (\<lambda>c. c / last ?cdf) ?cdf) = last ?cdf / last ?cdf"
    using ne by (simp add: last_map cumsum_def)
  also have "\<dots> = 1" using pos last by simp
  finally have l1: "last (map (\<lambda>c. c / last ?cdf) ?cdf) = 1" .
  have "?u < 1" by (rule raw_draw_less_1)
  with l1 cne have "searchsorted_right (map (\<lambda>c. c / last ?cdf) ?cdf) ?u
      < length (map (\<lambda>c. c / last ?cdf) ?cdf)"
    by (intro searchsorted_right_less) simp_all
  then show ?thesis
    using len by (simp add: class_index_def cumsum_def)
qed

lemma np_random_choice_p_accepted:
  assumes "accepted a p"
  shows "np_random_choice_p a p s = (Inr (a ! class_index p s), s\<lparr>rng := stl (rng s)\<rparr>)"
proof -
  have "class_index p s < length a" using assms by (rule class_index_less)
  then have "getitem_seq a (int (class_index p s)) = Inr (a ! class_index p s)"
    by (rule getitem_seq_nat)
  moreover have "\<not> (\<exists>x \<in> set p. x < 0)" "\<not> \<bar>sum_list p - 1\<bar> > 1 / 2 ^ 26"
    using assms by (auto simp: accepted_def not_less)
  ultimately show ?thesis
    using assms
    by (simp add: np_random_choice_p_def accepted_def mbind_def random_sample_def lift_def
        class_index_def Let_def)
qed

lemma np_random_choice_p_rejected:
  assumes "\<not> accepted a p"
  shows "\<exists>msg. np_random_choice_p a p s = (Inl (ValueError msg), s)"
  using assms by (auto simp: np_random_choice_p_def accepted_def not_le)

lemma np_random_choice_nonempty:
  assumes "a \<noteq> []"
  shows "np_random_choice a s = (Inr (a ! (shd (rng s) mod length a)), s\<lparr>rng := stl (rng s)\<rparr>)"
  using assms by (simp add: np_random_choice_def mbind_def randint_def lift_def getitem_seq_nat)

lemma np_random_choice_empty:
  "np_random_choice [] s = (Inl (ValueError choice_empty_msg), s)"
  by (simp add: np_random_choice_def)


lemma never_np_random_choice_p: "never IndexError (np_random_choice_p a p)"
  unfolding never_def
proof
  fix s :: "'a world"
  show "fst (np_random_choice_p a p s) \<noteq> Inl IndexError"
  proof (cases "accepted a p")
    case True
    then show ?thesis by (simp add: np_random_choice_p_accepted)
  next
    case False
    then obtain msg where "np_random_choice_p a p s = (Inl (ValueError msg), s)"
      using np_random_choice_p_rejected by blast
    then show ?thesis by simp
  qed
qed

lemma never_np_random_choice: "never IndexError (np_random_choice a)"
  unfolding never_def
  by (cases "a = []") (simp_all add: np_random_choice_empty np_random_choice_nonempty)

lemma getitem_dict_not_IndexError: "getitem_dict d k \<noteq> Inl IndexError"
  by (simp add: getitem_dict_def split: option.splits)

lemma np_load_not_IndexError: "np_load fs path \<noteq> Inl IndexError"
  by (simp add: np_load_def split: option.splits)

lemma never_get_slice_idx: "never IndexError (get_slice_idx c)"
  unfolding get_slice_idx_def
  by (intro never_mbind never_attr never_np_random_choice_p never_np_random_choice)
     (simp_all add: getitem_dict_not_IndexError)

lemma never_get_slice_idx_str: "never IndexError (get_slice_idx_str to_str c)"
  unfolding get_slice_idx_str_def
  by (intro never_mbind never_get_slice_idx never_return)

lemma never_case_prod: "(\<And>a b. never e (f a b)) \<Longrightarrow> never e (case p of (a, b) \<Rightarrow> f a b)"
  by (cases p) simp

lemma never_load_slices: "never IndexError (load_slices to_str fs c)"
  unfolding load_slices_def Let_def
  by (intro never_mbind never_get_slice_idx_str never_case_prod never_attr never_return)
     (simp_all add: np_load_not_IndexError)

lemma set_channel_shape: "set_channel x k b = Inr x' \<Longrightarrow> shape3 x' = shape3 x"
  by (auto simp: set_channel_def split: prod.splits if_splits)

lemma set_channel_IndexError:
  "set_channel x k b = Inl IndexError \<longleftrightarrow> snd (snd (shape3 x)) \<le> k"
  by (auto simp: set_channel_def split: prod.splits if_splits)

lemma fill_channels_not_IndexError:
  "\<forall>k \<in> fst ` set ps. k < snd (snd (shape3 x)) \<Longrightarrow>
   fill_channels to_str fs cf ps x \<noteq> Inl IndexError"
proof (induction ps arbitrary: x)
  case Nil
  then show ?case by simp
next
  case (Cons p ps)
  obtain k i where p: "p = (k, i)" by (cases p)
  from Cons.prems p have k: "k < snd (snd (shape3 x))"
    and rest: "\<forall>k \<in> fst ` set ps. k < snd (snd (shape3 x))" by auto
  show ?case
  proof (cases "isfile fs (join cf (imaging_name (to_str i)))")
    case False
    then show ?thesis using Cons.IH [OF rest] p by simp
  next
    case True
    then obtain b where b: "np_load fs (join cf (imaging_name (to_str i))) = Inr b"
      by (auto simp: isfile_def np_load_def)
    show ?thesis
    proof (cases "set_channel x k b")
      case (Inl e)
      then have "e \<noteq> IndexError" using k set_channel_IndexError [of x k b] by auto
      then show ?thesis using True b Inl p by simp
    next
      case (Inr x')
      then have "shape3 x' = shape3 x" by (rule set_channel_shape)
      with rest have "\<forall>k \<in> fst ` set ps. k < snd (snd (shape3 x'))" by simp
      from Cons.IH [OF this] show ?thesis using True b Inr p by simp
    qed
  qed
qed

lemma enumerate_range_fst:
  "k \<in> fst ` set (enumerate_range lo hi) \<Longrightarrow> int k < hi - lo"
  by (auto simp: enumerate_range_def Let_def in_set_zip)

lemma window_length: "1 < n \<Longrightarrow> (c + (n - 1) div 2 + 1) - (c - (n - 1) div 2) \<le> (n::int)"
  by presburger

lemma never_pseudo_load_slices: "never IndexError (pseudo_load_slices to_str fs c)"
proof -
  have fill: "never IndexError
      (lift (fill_channels to_str fs cf
         (enumerate_range (ci - (n - 1) div 2) (ci + (n - 1) div 2 + 1)) (np_zeros (H, W, nat n))))"
    if "1 < n" for cf ci n H W
  proof -
    have "k < nat n"
      if "k \<in> fst ` set (enumerate_range (ci - (n - 1) div 2) (ci + (n - 1) div 2 + 1))" for k
      using enumerate_range_fst [OF that] window_length [OF \<open>1 < n\<close>, of ci] by linarith
    then show ?thesis
      by (simp add: fill_channels_not_IndexError np_zeros_def)
  qed
  show ?thesis
    unfolding pseudo_load_slices_def Let_def
    by (intro never_mbind never_get_slice_idx_str never_case_prod never_attr)
       (auto simp: np_load_not_IndexError split: prod.splits
          intro!: never_mbind fill never_return)
qed

lemma unpack_pair_not_IndexError: "unpack_pair r \<noteq> Inl IndexError"
  by (simp add: unpack_pair_def split: option.splits)

lemma never_call_stage: "never IndexError (call_stage f x y)"
  by (simp add: call_stage_def split: sum.splits)

lemma never_apply_transforms_and_preprocessing:
  "never IndexError (apply_transforms_and_preprocessing x y)"
  unfolding apply_transforms_and_preprocessing_def
  by (intro never_mbind never_attr never_case_prod never_return)
     (auto split: option.splits simp: never_call_stage)

lemma tensor_float_not_IndexError: "tensor_float p \<noteq> Inl IndexError"
  by (simp add: tensor_float_def split: payload.splits)

lemma tensor_long_not_IndexError: "tensor_long p \<noteq> Inl IndexError"
  by (simp add: tensor_long_def split: payload.splits)

lemma getitem_with_IndexError:
  assumes "\<And>c. never IndexError (load c)"
  shows "fst (getitem_with load i s) = Inl IndexError \<longleftrightarrow>
         i < - int (length (im_ids (self s))) \<or> int (length (im_ids (self s))) \<le> i"
proof (cases "getitem_seq (im_ids (self s)) i")
  case (Inl e)
  then have "e = IndexError" by (auto simp: getitem_seq_def Let_def split: if_splits)
  with Inl show ?thesis
    using getitem_seq_IndexError [of "im_ids (self s)" i] by (simp add: getitem_with_def)
next
  case (Inr case_id)
  have "never IndexError
     (mbind (load case_id) (\<lambda>r.
      mbind (lift (unpack_pair r)) (\<lambda>(x, y).
      mbind (apply_transforms_and_preprocessing (NdArray x) (NdArray y)) (\<lambda>(x, y).
        let x = from_numpy_if_array x;
            y = from_numpy_if_array y
        in mbind (lift (tensor_float x)) (\<lambda>xf.
           mbind (lift (tensor_long y)) (\<lambda>yl.
           return (xf, yl)))))))"
    unfolding Let_def
    by (intro never_mbind assms never_case_prod never_apply_transforms_and_preprocessing
          never_return)
       (simp_all add: unpack_pair_not_IndexError tensor_float_not_IndexError
          tensor_long_not_IndexError)
  then show ?thesis
    using Inr getitem_seq_IndexError [of "im_ids (self s)" i]
    by (simp add: getitem_with_def never_def)
qed

subsection \<open>The draw of a slice index\<close>

lemma getitem_dict_Some: "map_of d k = Some v \<Longrightarrow> getitem_dict d k = Inr v"
  by (simp add: getitem_dict_def)

lemma get_slice_idx_result:
  assumes acc: "accepted (classes (self s)) (sampling_distribution (self s))"
    and per: "map_of (pos_slice_dict (self s)) case_raw = Some per_class"
    and xs: "map_of per_class (classes (self s) ! class_index (sampling_distribution (self s)) s)
               = Some xs"
    and ne: "xs \<noteq> []"
  shows "get_slice_idx case_raw s =
           (Inr (xs ! (shd (stl (rng s)) mod length xs)), s\<lparr>rng := stl (stl (rng s))\<rparr>)"
proof -
  let ?s1 = "s\<lparr>rng := stl (rng s)\<rparr>"
  have 1: "np_random_choice_p (classes (self s)) (sampling_distribution (self s)) s =
             (Inr (classes (self s) ! class_index (sampling_distribution (self s)) s), ?s1)"
    using acc by (rule np_random_choice_p_accepted)
  have 2: "np_random_choice xs ?s1 =
             (Inr (xs ! (shd (stl (rng s)) mod length xs)), s\<lparr>rng := stl (stl (rng s))\<rparr>)"
    using np_random_choice_nonempty [OF ne, of ?s1] by simp
  show ?thesis
    unfolding get_slice_idx_def
    by (simp add: mbind_def 1 attr_def lift_def getitem_dict_Some [OF per]
        getitem_dict_Some [OF xs] 2)
qed

lemma demo_accepted: "accepted [''bg'', ''kidney'', ''tumor''] [0, 0, 1]"
  by (simp add: accepted_def)

lemma class_index_tumor: "class_index [0, 0, 1] s = 2"
  using raw_draw_less_1 [of "shd (rng s)"] raw_draw_nonneg [of "shd (rng s)"]
  by (simp add: class_index_def cumsum_def searchsorted_right_def)

lemma draw_tumor:
  assumes "classes (self s) = [''bg'', ''kidney'', ''tumor'']"
    and "sampling_distribution (self s) = [0, 0, 1]"
    and "pos_slice_dict (self s) = demo_catalog"
  shows "np_random_choice_p (classes (self s)) (sampling_distribution (self s)) s
           = (Inr ''tumor'', s\<lparr>rng := stl (rng s)\<rparr>)"
    and "get_slice_idx ''case01'' s = (Inr 7, s\<lparr>rng := stl (stl (rng s))\<rparr>)"
proof -
  show "np_random_choice_p (classes (self s)) (sampling_distribution (self s)) s
           = (Inr ''tumor'', s\<lparr>rng := stl (rng s)\<rparr>)"
    using np_random_choice_p_accepted [OF demo_accepted, of s]
    by (simp add: assms class_index_tumor)
  have "get_slice_idx ''case01'' s =
      (Inr ([7] ! (shd (stl (rng s)) mod length [7::int])), s\<lparr>rng := stl (stl (rng s))\<rparr>)"
    by (rule get_slice_idx_result [where per_class = "snd (hd demo_catalog)"])
       (simp_all add: assms demo_accepted class_index_tumor demo_catalog_def)
  then show "get_slice_idx ''case01'' s = (Inr 7, s\<lparr>rng := stl (stl (rng s))\<rparr>)"
    by simp
qed

lemma np_load_Some: "fs path = Some a \<Longrightarrow> np_load fs path = Inr a"
  by (simp add: np_load_def)

lemma get_slice_idx_str_Inr:
  "get_slice_idx case_raw s = (Inr c, s') \<Longrightarrow>
   get_slice_idx_str to_str case_raw s = (Inr (to_str c, c), s')"
  by (simp add: get_slice_idx_str_def mbind_def)

lemma get_slice_idx_self:
  "get_slice_idx case_raw s = (r, s') \<Longrightarrow> self s' = self s"
  by (auto simp: get_slice_idx_def mbind_def attr_def lift_def raise_def np_random_choice_p_def
      np_random_choice_def random_sample_def randint_def Let_def
      split: sum.splits prod.splits if_splits)

subsection \<open>What a method changes\<close>

lemma unchanged_refl [simp]: "unchanged_but_entropy n s s"
  by (auto simp: unchanged_but_entropy_def intro: exI [of _ 0])

lemma unchanged_trans:
  assumes "unchanged_but_entropy a s s1" and "unchanged_but_entropy b s1 s2"
  shows "unchanged_but_entropy (a + b) s s2"
proof -
  from assms obtain k l where "k \<le> a" "rng s1 = sdrop k (rng s)" "l \<le> b"
    "rng s2 = sdrop l (rng s1)" and self: "self s2 = self s"
    by (auto simp: unchanged_but_entropy_def)
  then have "k + l \<le> a + b" and "rng s2 = sdrop (k + l) (rng s)"
    by (simp_all add: sdrop_add add.commute)
  with self show ?thesis unfolding unchanged_but_entropy_def by blast
qed

lemma unchanged_mono:
  "unchanged_but_entropy a s s' \<Longrightarrow> a \<le> b \<Longrightarrow> unchanged_but_entropy b s s'"
  by (auto simp: unchanged_but_entropy_def intro: order_trans)

lemma consumes_mono: "consumes a m \<Longrightarrow> a \<le> b \<Longrightarrow> consumes b m"
  by (auto simp: consumes_def intro: unchanged_mono)

lemma consumes_mbind:
  assumes "consumes a m" and "\<And>x. consumes b (f x)"
  shows "consumes (a + b) (mbind m f)"
  unfolding consumes_def
proof
  fix s
  obtain r s1 where m: "m s = (r, s1)" by (cases "m s")
  with assms(1) have 1: "unchanged_but_entropy a s s1"
    by (auto simp: consumes_def dest: spec [of _ s])
  show "unchanged_but_entropy (a + b) s (snd (mbind m f s))"
  proof (cases r)
    case (Inl e)
    with m 1 show ?thesis by (simp add: mbind_def unchanged_mono)
  next
    case (Inr x)
    from assms(2) [of x] have "unchanged_but_entropy b s1 (snd (f x s1))"
      by (simp add: consumes_def)
    with 1 have "unchanged_but_entropy (a + b) s (snd (f x s1))" by (rule unchanged_trans)
    with m Inr show ?thesis by (simp add: mbind_def)
  qed
qed

lemma consumes_pure_then:
  "consumes 0 m \<Longrightarrow> (\<And>x. consumes n (f x)) \<Longrightarrow> consumes n (mbind m f)"
  using consumes_mbind [of 0 m n f] by simp

lemma consumes_then_pure:
  "consumes n m \<Longrightarrow> (\<And>x. consumes 0 (f x)) \<Longrightarrow> consumes n (mbind m f)"
  using consumes_mbind [of n m 0 f] by simp

lemma consumes_return [simp]: "consumes n (return a)"
  by (simp add: consumes_def)

lemma consumes_raise [simp]: "consumes n (raise e)"
  by (simp add: consumes_def)

lemma consumes_lift [simp]: "consumes n (lift r)"
  by (simp add: consumes_def lift_def)

lemma consumes_attr [simp]: "consumes n (attr g)"
  by (simp add: consumes_def attr_def)

lemma consumes_case_prod:
  "(\<And>a b. consumes n (f a b)) \<Longrightarrow> consumes n (case p of (a, b) \<Rightarrow> f a b)"
  by (cases p) simp

lemma sdrop_one: "sdrop (Suc 0) g = stl g"
  by simp

lemma consumes_random_sample: "consumes (Suc 0) random_sample"
  unfolding consumes_def unchanged_but_entropy_def random_sample_def
  by (auto intro!: exI [of _ "Suc 0"])

lemma consumes_randint: "consumes (Suc 0) (randint n)"
  unfolding consumes_def unchanged_but_entropy_def randint_def
  by (auto intro!: exI [of _ "Suc 0"])

lemma consumes_np_random_choice_p: "consumes (Suc 0) (np_random_choice_p a p)"
  unfolding np_random_choice_p_def Let_def
  by (auto intro!: consumes_then_pure consumes_random_sample)

lemma consumes_np_random_choice: "consumes (Suc 0) (np_random_choice a)"
  unfolding np_random_choice_def
  by (auto intro!: consumes_then_pure consumes_randint)

lemma consumes_get_slice_idx: "consumes 2 (get_slice_idx case_raw)"
proof -
  have "consumes (Suc 0 + Suc 0) (mbind (np_random_choice_p cls p) (\<lambda>sampled_class.
     mbind (attr pos_slice_dict) (\<lambda>psd.
     mbind (lift (getitem_dict psd case_raw)) (\<lambda>per_class.
     mbind (lift (getitem_dict per_class sampled_class)) (\<lambda>slice_indices.
     np_random_choice slice_indices)))))" for cls :: "string list" and p
    by (intro consumes_mbind consumes_np_random_choice_p consumes_pure_then
          consumes_np_random_choice consumes_attr consumes_lift)
  then have inner: "consumes 2 (mbind (np_random_choice_p cls p) (\<lambda>sampled_class.
     mbind (attr pos_slice_dict) (\<lambda>psd.
     mbind (lift (getitem_dict psd case_raw)) (\<lambda>per_class.
     mbind (lift (getitem_dict per_class sampled_class)) (\<lambda>slice_indices.
     np_random_choice slice_indices)))))" for cls :: "string list" and p
    by (simp add: numeral_2_eq_2)
  show ?thesis
    unfolding get_slice_idx_def
    by (rule consumes_pure_then [OF consumes_attr], rule consumes_pure_then [OF consumes_attr],
        rule inner)
qed

lemma consumes_get_slice_idx_str: "consumes 2 (get_slice_idx_str to_str case_raw)"
  unfolding get_slice_idx_str_def
  by (intro consumes_then_pure consumes_get_slice_idx consumes_return)

lemma consumes_load_slices: "consumes 2 (load_slices to_str fs case_raw)"
  unfolding load_slices_def Let_def
  by (intro consumes_then_pure consumes_get_slice_idx_str consumes_case_prod
        consumes_pure_then consumes_attr consumes_lift consumes_return)

lemma consumes_pseudo_load_slices: "consumes 2 (pseudo_load_slices to_str fs case_raw)"
  unfolding pseudo_load_slices_def Let_def
  by (intro consumes_pure_then consumes_attr consumes_then_pure consumes_get_slice_idx_str
        consumes_case_prod consumes_lift)
     (auto split: prod.splits intro!: consumes_pure_then)

lemma consumes_call_stage: "consumes 0 (call_stage f x y)"
  by (simp add: call_stage_def split: sum.splits)

lemma consumes_apply_transforms_and_preprocessing:
  "consumes 0 (apply_transforms_and_preprocessing x y)"
  unfolding apply_transforms_and_preprocessing_def
  by (intro consumes_pure_then consumes_attr consumes_case_prod consumes_return)
     (auto split: option.splits simp: consumes_call_stage)

lemma consumes_getitem_with:
  assumes "\<And>c. consumes 2 (load c)"
  shows "consumes 2 (getitem_with load i)"
  unfolding getitem_with_def Let_def
  by (intro consumes_pure_then consumes_attr consumes_lift consumes_then_pure assms
        consumes_case_prod consumes_apply_transforms_and_preprocessing consumes_return)

lemma consumes_len: "consumes 0 len"
  unfolding len_def by (intro consumes_pure_then consumes_attr consumes_return)

subsection \<open>Construction\<close>

lemma log_class_indices_Cons:
  "log_class_indices (ds\<lparr>pos_slice_dict := (k, v) # rest\<rparr>) =
     Inr (ds\<lparr>pos_slice_dict := (k, v) # rest, classes := map fst v\<rparr>)"
  by (simp add: log_class_indices_def getitem_seq_def getitem_dict_def)

lemma log_class_indices_result:
  "log_class_indices ds =
     (case pos_slice_dict ds of [] \<Rightarrow> Inl IndexError
      | (k, v) # rest \<Rightarrow> Inr (ds\<lparr>classes := map fst v\<rparr>))"
  by (simp add: log_class_indices_def getitem_seq_def getitem_dict_def split: list.splits)

lemma init_result:
  "init ids dir psd tr pp sdist =
     (if np_sum sdist \<noteq> 1 then Inl (AssertionError sum_msg)
      else case psd of [] \<Rightarrow> Inl IndexError
           | (k, v) # rest \<Rightarrow>
               Inr \<lparr>im_ids = ids, in_dir = dir, pos_slice_dict = psd, transforms = tr,
                    preprocessing = pp, sampling_distribution = sdist, classes = map fst v\<rparr>)"
  by (simp add: init_def log_class_indices_result split: list.splits)

subsection \<open>Loading with a window of one slice\<close>





lemma load_slices_shape:
  assumes "load_slices to_str fs case_raw s = (Inr (x, y), s')"
  shows "snd (snd (shape3 x)) = 1 \<and> snd (snd (shape3 y)) = 1"
  using assms unfolding load_slices_def Let_def
  by (auto elim!: mbind_InrE simp: attr_def lift_def add_channel_axis_def split: prod.splits)

subsection \<open>The conversion to tensors\<close>

lemma tensor_float_Inr:
  "tensor_float (from_numpy_if_array p) = Inr x \<Longrightarrow> \<exists>t. x = Tensor t \<and> dtype3 t = Float32"
  by (auto simp: tensor_float_def from_numpy_if_array_def split: payload.splits)

lemma tensor_long_Inr:
  "tensor_long (from_numpy_if_array p) = Inr y \<Longrightarrow> \<exists>t. y = Tensor t \<and> dtype3 t = Int64"
  by (auto simp: tensor_long_def from_numpy_if_array_def split: payload.splits)

lemma getitem_with_tensors:
  assumes "getitem_with load i s = (Inr (x, y), s')"
  shows "(\<exists>t. x = Tensor t \<and> dtype3 t = Float32) \<and> (\<exists>t. y = Tensor t \<and> dtype3 t = Int64)"
proof -
  from assms obtain p q where "tensor_float (from_numpy_if_array p) = Inr x"
    and "tensor_long (from_numpy_if_array q) = Inr y"
    unfolding getitem_with_def Let_def
    by (auto elim!: mbind_InrE simp: lift_def split: prod.splits)
  then show ?thesis using tensor_float_Inr tensor_long_Inr by blast
qed

subsection \<open>The loop over the window\<close>

lemma set_channel_same_shape:
  assumes "shape3 x = (H, W, C)" and "shape2 b = (H, W)" and "k < C"
  shows "\<exists>x'. set_channel x k b = Inr x' \<and> shape3 x' = (H, W, C) \<and>
           (\<forall>i < H. \<forall>j < W. at3 x' i j k = at2 b i j) \<and>
           (\<forall>i j l. l \<noteq> k \<longrightarrow> at3 x' i j l = at3 x i j l)"
  using assms by (auto simp: set_channel_def)

lemma fill_channels_window:
  assumes "distinct (map fst ps)"
    and "\<forall>k \<in> fst ` set ps. k < C"
    and "shape3 x = (H, W, C)"
    and "\<forall>(k, i) \<in> set ps. \<forall>b. fs (join cf (imaging_name (to_str i))) = Some b \<longrightarrow> shape2 b = (H, W)"
  shows "\<exists>x'. fill_channels to_str fs cf ps x = Inr x' \<and> shape3 x' = (H, W, C) \<and>
           (\<forall>(k, i) \<in> set ps. \<forall>r < H. \<forall>c < W.
              at3 x' r c k = (case fs (join cf (imaging_name (to_str i))) of
                                Some b \<Rightarrow> at2 b r c | None \<Rightarrow> at3 x r c k)) \<and>
           (\<forall>l. l \<notin> fst ` set ps \<longrightarrow> (\<forall>r c. at3 x' r c l = at3 x r c l))"
  using assms
proof (induction ps arbitrary: x)
  case Nil
  then show ?case by simp
next
  case (Cons p ps)
  obtain k i where p: "p = (k, i)" by (cases p)
  let ?path = "join cf (imaging_name (to_str i))"
  from Cons.prems p have k: "k < C" and knot: "k \<notin> fst ` set ps"
    and dist: "distinct (map fst ps)" and bound: "\<forall>k \<in> fst ` set ps. k < C"
    and shapes: "\<forall>(k, i) \<in> set ps. \<forall>b. fs (join cf (imaging_name (to_str i))) = Some b
                   \<longrightarrow> shape2 b = (H, W)"
    by auto
  show ?case
  proof (cases "fs ?path")
    case None
    from Cons.IH [OF dist bound Cons.prems(3) shapes] obtain x' where
      x': "fill_channels to_str fs cf ps x = Inr x'" "shape3 x' = (H, W, C)"
      "\<forall>(k, i) \<in> set ps. \<forall>r < H. \<forall>c < W.
              at3 x' r c k = (case fs (join cf (imaging_name (to_str i))) of
                                Some b \<Rightarrow> at2 b r c | None \<Rightarrow> at3 x r c k)"
      "\<forall>l. l \<notin> fst ` set ps \<longrightarrow> (\<forall>r c. at3 x' r c l = at3 x r c l)"
      by blast
    have "fill_channels to_str fs cf (p # ps) x = Inr x'"
      using None x'(1) p by (simp add: isfile_def)
    moreover have "\<forall>r < H. \<forall>c < W. at3 x' r c k = at3 x r c k"
      using x'(4) knot by simp
    ultimately show ?thesis
      using x'(2,3,4) None p by auto
  next
    case (Some b)
    with Cons.prems(4) p have "shape2 b = (H, W)" by auto
    from set_channel_same_shape [OF Cons.prems(3) this k] obtain x1 where
      x1: "set_channel x k b = Inr x1" "shape3 x1 = (H, W, C)"
      "\<forall>i < H. \<forall>j < W. at3 x1 i j k = at2 b i j"
      "\<forall>i j l. l \<noteq> k \<longrightarrow> at3 x1 i j l = at3 x i j l"
      by blast
    from Cons.IH [OF dist bound x1(2) shapes] obtain x' where
      x': "fill_channels to_str fs cf ps x1 = Inr x'" "shape3 x' = (H, W, C)"
      "\<forall>(k, i) \<in> set ps. \<forall>r < H. \<forall>c < W.
              at3 x' r c k = (case fs (join cf (imaging_name (to_str i))) of
                                Some b \<Rightarrow> at2 b r c | None \<Rightarrow> at3 x1 r c k)"
      "\<forall>l. l \<notin> fst ` set ps \<longrightarrow> (\<forall>r c. at3 x' r c l = at3 x1 r c l)"
      by blast
    have run: "fill_channels to_str fs cf (p # ps) x = Inr x'"
      using Some x1(1) x'(1) p by (simp add: isfile_def np_load_def)
    have here: "\<forall>r < H. \<forall>c < W. at3 x' r c k = at2 b r c"
      using x'(4) knot x1(3) by simp
    have others: "\<forall>(k', i') \<in> set ps. \<forall>r < H. \<forall>c < W.
              at3 x' r c k' = (case fs (join cf (imaging_name (to_str i'))) of
                                Some b \<Rightarrow> at2 b r c | None \<Rightarrow> at3 x r c k')"
    proof (intro ballI, clarify)
      fix k' i' r c
      assume in_ps: "(k', i') \<in> set ps" and r: "r < H" and c: "c < W"
      then have "k' \<noteq> k" using knot by force
      then have "at3 x1 r c k' = at3 x r c k'" using x1(4) by simp
      with x'(3) in_ps r c
      show "at3 x' r c k' = (case fs (join cf (imaging_name (to_str i'))) of
                                Some b \<Rightarrow> at2 b r c | None \<Rightarrow> at3 x r c k')"
        by (auto split: option.splits)
    qed
    have outside: "\<forall>l. l \<notin> fst ` set (p # ps) \<longrightarrow> (\<forall>r c. at3 x' r c l = at3 x r c l)"
      using x'(4) x1(4) p by auto
    show ?thesis
      using run x'(2) here others outside Some p by auto
  qed
qed

lemma enumerate_range_map_fst:
  "map fst (enumerate_range lo hi) = [0..<nat (hi - lo)]"
  by (simp add: enumerate_range_def Let_def)

lemma enumerate_range_nth:
  assumes "k < nat (hi - lo)"
  shows "(k, lo + int k) \<in> set (enumerate_range lo hi)"
proof -
  have "[lo..hi - 1] ! k = lo + int k" using assms by (simp add: nth_upto)
  moreover have "[0..<nat (hi - lo)] ! k = k" using assms by simp
  ultimately show ?thesis
    using assms unfolding enumerate_range_def Let_def in_set_zip
    by (intro exI [of _ k]) simp
qed

lemma enumerate_range_member:
  assumes "(k, i) \<in> set (enumerate_range lo hi)"
  shows "k < nat (hi - lo) \<and> i = lo + int k"
  using assms unfolding enumerate_range_def Let_def in_set_zip
  by (auto simp: nth_upto)

lemma window_size: "(c + half_width n + 1) - (c - half_width n) = 2 * half_width n + 1"
  by simp

lemma window_fits: "1 < n \<Longrightarrow> nat (2 * half_width n + 1) \<le> nat n"
proof -
  assume "1 < n"
  have "2 * ((n - 1) div 2) + 1 \<le> n" by presburger
  then show ?thesis unfolding half_width_def by (rule nat_mono)
qed

subsection \<open>The small data set, evaluated\<close>

lemmas monad_defs = lift_def attr_def mbind_def
lemmas choice_defs = np_random_choice_p_def np_random_choice_def random_sample_def randint_def
  cumsum_def searchsorted_right_def getitem_seq_def getitem_dict_def
lemmas demo_defs = demo_world_def demo_dataset_def demo_pseudo_dataset_def demo_catalog_def

lemma to_str_7: "parse_slice_idx_to_str 3 7 = ''007''"
  by code_simp

lemma demo_get_slice_idx:
  "get_slice_idx ''case01'' (demo_world demo_dataset) = (Inr 7, demo_world demo_dataset)"
  by (simp add: get_slice_idx_def monad_defs choice_defs demo_defs)

lemma demo_load_slices:
  "load_slices (parse_slice_idx_to_str 3) demo_fs ''case01'' (demo_world demo_dataset) =
     (Inr (add_channel_axis (demo_image 7), add_channel_axis demo_mask), demo_world demo_dataset)"
  by (simp add: load_slices_def get_slice_idx_str_def demo_get_slice_idx mbind_Inr to_str_7
      join_def imaging_name_def segmentation_name_def demo_fs_def np_load_def)
     (simp add: demo_defs)

lemma demo_fields:
  "self (demo_world d) = d"
  "im_ids demo_dataset = [''case01'']"
  "transforms demo_dataset = None"
  "preprocessing demo_dataset = None"
  by (simp_all add: demo_defs)

lemma demo_init:
  "init [''case01''] ''data'' demo_catalog None None [0, 0, 1] = Inr demo_dataset"
  by (simp add: init_result np_sum_def demo_catalog_def demo_dataset_def)

lemma demo_pseudo_fields:
  "num_pseudo_slices (demo_pseudo_dataset n) = n"
  "in_dir (demo_pseudo_dataset n) = ''data''"
  "classes (demo_pseudo_dataset n) = [''bg'', ''kidney'', ''tumor'']"
  "sampling_distribution (demo_pseudo_dataset n) = [0, 0, 1]"
  "pos_slice_dict (demo_pseudo_dataset n) = demo_catalog"
  "im_ids (demo_pseudo_dataset n) = [''case01'']"
  "transforms (demo_pseudo_dataset n) = None"
  "preprocessing (demo_pseudo_dataset n) = None"
  by (simp_all add: demo_pseudo_dataset_def)

lemma demo_pseudo_get_slice_idx:
  "get_slice_idx ''case01'' (demo_world (demo_pseudo_dataset n)) =
     (Inr 7, demo_world (demo_pseudo_dataset n))"
  using draw_tumor(2) [of "demo_world (demo_pseudo_dataset n)"]
  by (simp add: demo_fields demo_pseudo_fields) (simp add: demo_world_def)

lemma demo_paths:
  "join (join ''data'' ''case01'') (imaging_name s) = ''data/case01/imaging_'' @ s @ ''.npy''"
  "join (join ''data'' ''case01'') (segmentation_name s) = ''data/case01/segmentation_'' @ s @ ''.npy''"
  by (simp_all add: join_def imaging_name_def segmentation_name_def)

lemma demo_getitem:
  "getitem (parse_slice_idx_to_str 3) demo_fs 0 (demo_world demo_dataset) =
     (Inr (Tensor ((add_channel_axis (demo_image 7))\<lparr>dtype3 := Float32\<rparr>),
           Tensor ((add_channel_axis demo_mask)
             \<lparr>dtype3 := Int64,
              at3 := (\<lambda>i j c. truncate (at3 (add_channel_axis demo_mask) i j c))\<rparr>)),
      demo_world demo_dataset)"
  by (simp add: getitem_def getitem_with_def demo_load_slices mbind_Inr unpack_pair_def
      apply_transforms_and_preprocessing_def from_numpy_if_array_def tensor_float_def
      tensor_long_def getitem_seq_def demo_fields)


lemma to_str_window:
  "parse_slice_idx_to_str 3 5 = ''005''"
  "parse_slice_idx_to_str 3 6 = ''006''"
  "parse_slice_idx_to_str 3 8 = ''008''"
  "parse_slice_idx_to_str 3 9 = ''009''"
  by code_simp+

lemma demo_window_files:
  "demo_fs (image_path (parse_slice_idx_to_str 3) ''data'' ''case01'' 5) = Some (demo_image 5)"
  "demo_fs (image_path (parse_slice_idx_to_str 3) ''data'' ''case01'' 6) = Some (demo_image 6)"
  "demo_fs (image_path (parse_slice_idx_to_str 3) ''data'' ''case01'' 7) = Some (demo_image 7)"
  "demo_fs (image_path (parse_slice_idx_to_str 3) ''data'' ''case01'' 8) = Some (demo_image 8)"
  "demo_fs (image_path (parse_slice_idx_to_str 3) ''data'' ''case01'' 9) = None"
  "demo_fs (mask_path (parse_slice_idx_to_str 3) ''data'' ''case01'' 7) = Some demo_mask"
  by (simp_all add: image_path_def mask_path_def demo_paths to_str_7 to_str_window demo_fs_def)

lemma less_5_cases: "k < 5 \<Longrightarrow> k = 0 \<or> k = 1 \<or> k = 2 \<or> k = 3 \<or> k = (4::nat)"
  by arith

section \<open>The claims\<close>

subsection \<open>C1: which indices raise IndexError\<close>

text \<open>
  C1 says that \<^verbatim>\<open>getItem(i)\<close> fails with an out-of-range error exactly when \<open>i\<close> is
  outside \<open>[0, length())\<close>. The code indexes \<^verbatim>\<open>self.im_ids[idx]\<close> with Python's
  indexing, which accepts \<open>-length() \<le> i < 0\<close> and counts from the end: on the data set
  of one case, index \<open>-1\<close> is outside \<open>[0, 1)\<close> and the access succeeds.
\<close>

theorem getitem_negative_index_counterexample:
  "\<not> (0 \<le> (- 1 :: int) \<and> (- 1 :: int) < int (length (im_ids demo_dataset))) \<and>
   \<not> isl (fst (getitem (parse_slice_idx_to_str 3) demo_fs (- 1) (demo_world demo_dataset)))"
  by (simp add: getitem_def getitem_with_def demo_load_slices mbind_Inr unpack_pair_def
      apply_transforms_and_preprocessing_def from_numpy_if_array_def tensor_float_def
      tensor_long_def getitem_seq_def demo_fields)

text \<open>
  C1, amended: for both classes and every integer \<open>i\<close>, \<^verbatim>\<open>__getitem__\<close> raises
  IndexError exactly when \<open>i\<close> is outside \<open>[-length(), length())\<close>. So index
  \<open>length()\<close> raises it, and index \<open>length() - 1\<close> of a non-empty data set does not.
\<close>

theorem getitem_index_error_iff:
  "(fst (getitem to_str fs i s) = Inl IndexError \<longleftrightarrow>
      i < - int (length (im_ids (self s))) \<or> int (length (im_ids (self s))) \<le> i) \<and>
   (fst (pseudo_getitem to_str fs i t) = Inl IndexError \<longleftrightarrow>
      i < - int (length (im_ids (self t))) \<or> int (length (im_ids (self t))) \<le> i)"
proof
  have "never IndexError (mbind (load_slices to_str fs c) (\<lambda>r. return (Some r)))" for c
    by (intro never_mbind never_load_slices never_return)
  then show "fst (getitem to_str fs i s) = Inl IndexError \<longleftrightarrow>
      i < - int (length (im_ids (self s))) \<or> int (length (im_ids (self s))) \<le> i"
    unfolding getitem_def by (rule getitem_with_IndexError)
  show "fst (pseudo_getitem to_str fs i t) = Inl IndexError \<longleftrightarrow>
      i < - int (length (im_ids (self t))) \<or> int (length (im_ids (self t))) \<le> i"
    unfolding pseudo_getitem_def by (rule getitem_with_IndexError) (rule never_pseudo_load_slices)
qed

theorem getitem_index_error_iff_witness:
  "fst (getitem (parse_slice_idx_to_str 3) demo_fs 1 (demo_world demo_dataset)) = Inl IndexError \<and>
   fst (getitem (parse_slice_idx_to_str 3) demo_fs (- 1) (demo_world demo_dataset)) \<noteq> Inl IndexError \<and>
   fst (pseudo_getitem (parse_slice_idx_to_str 3) demo_fs (- 2) (demo_world (demo_pseudo_dataset 5)))
     = Inl IndexError"
  using getitem_index_error_iff [of "parse_slice_idx_to_str 3" demo_fs 1 "demo_world demo_dataset"
          "demo_world (demo_pseudo_dataset 5)"]
        getitem_index_error_iff [of "parse_slice_idx_to_str 3" demo_fs "- 1" "demo_world demo_dataset"
          "demo_world (demo_pseudo_dataset 5)"]
        getitem_index_error_iff [of "parse_slice_idx_to_str 3" demo_fs "- 2" "demo_world demo_dataset"
          "demo_world (demo_pseudo_dataset 5)"]
  by (simp add: demo_defs)

subsection \<open>C5: the check of the sampling distribution\<close>



subsection \<open>C6: the check of the window size\<close>

text \<open>
  C6: when the constructor of the base class succeeds on the other arguments, the
  constructor of \<^verbatim>\<open>PseudoSliceDatasetOnTheFly\<close> fails with the assertion on
  \<^verbatim>\<open>num_pseudo_slices\<close> for every even window size and succeeds for every odd one.
\<close>

theorem pseudo_init_oddness:
  assumes "init ids dir psd tr pp sdist = Inr ds"
  shows "(even n \<longrightarrow> pseudo_init ids dir psd tr pp sdist n = Inl (AssertionError odd_msg)) \<and>
         (odd n \<longrightarrow> (\<exists>pds. pseudo_init ids dir psd tr pp sdist n = Inr pds \<and>
                          num_pseudo_slices pds = n))"
proof -
  have "n mod 2 = 1 \<longleftrightarrow> odd n" by presburger
  then show ?thesis using assms by (auto simp: pseudo_init_def)
qed

theorem pseudo_init_oddness_witness:
  "pseudo_init [''case01''] ''data'' demo_catalog None None [0, 0, 1] 2 = Inl (AssertionError odd_msg) \<and>
   pseudo_init [''case01''] ''data'' demo_catalog None None [0, 0, 1] 4 = Inl (AssertionError odd_msg) \<and>
   pseudo_init [''case01''] ''data'' demo_catalog None None [0, 0, 1] 6 = Inl (AssertionError odd_msg) \<and>
   (\<exists>pds. pseudo_init [''case01''] ''data'' demo_catalog None None [0, 0, 1] 1 = Inr pds \<and>
      num_pseudo_slices pds = 1) \<and>
   (\<exists>pds. pseudo_init [''case01''] ''data'' demo_catalog None None [0, 0, 1] 3 = Inr pds \<and>
      num_pseudo_slices pds = 3) \<and>
   (\<exists>pds. pseudo_init [''case01''] ''data'' demo_catalog None None [0, 0, 1] 5 = Inr pds \<and>
      num_pseudo_slices pds = 5) \<and>
   (\<exists>pds. pseudo_init [''case01''] ''data'' demo_catalog None None [0, 0, 1] 7 = Inr pds \<and>
      num_pseudo_slices pds = 7)"
  using pseudo_init_oddness [OF demo_init, of 2] pseudo_init_oddness [OF demo_init, of 4]
        pseudo_init_oddness [OF demo_init, of 6] pseudo_init_oddness [OF demo_init, of 1]
        pseudo_init_oddness [OF demo_init, of 3] pseudo_init_oddness [OF demo_init, of 5]
        pseudo_init_oddness [OF demo_init, of 7]
  by simp

subsection \<open>C2: a drawn index belongs to the catalog\<close>



subsection \<open>C3: the window of neighbouring slices\<close>

text \<open>
  C3: let the window size \<open>n\<close> be greater than one, let the draw return the center index
  \<open>c\<close>, let the center image, of shape \<open>(H, W)\<close>, and the center mask exist, and let
  every image file of the window that exists have that shape (the slices of one volume).
  Then \<^verbatim>\<open>load_slices\<close> returns an image buffer of shape \<open>(H, W, n)\<close> and the center mask
  with one channel. For each position \<open>k\<close> of the range from \<open>c - half_width n\<close> to
  \<open>c + half_width n\<close>, channel \<open>k\<close> of the buffer holds the stored image of slice
  \<open>c - half_width n + k\<close> when its file exists and is zero when it does not; a missing
  neighbour raises nothing.
\<close>

theorem pseudo_load_slices_window:
  assumes "num_pseudo_slices (self s) = n" and "1 < n"
    and "get_slice_idx case_raw s = (Inr c, s')"
    and "fs (image_path to_str (in_dir (self s)) case_raw c) = Some cx"
    and "fs (mask_path to_str (in_dir (self s)) case_raw c) = Some cy"
    and "shape2 cx = (H, W)"
    and "\<forall>k < nat (2 * half_width n + 1). \<forall>b.
           fs (image_path to_str (in_dir (self s)) case_raw (c - half_width n + int k)) = Some b
             \<longrightarrow> shape2 b = (H, W)"
  shows "\<exists>x. pseudo_load_slices to_str fs case_raw s = (Inr (Some (x, add_channel_axis cy)), s') \<and>
             shape3 x = (H, W, nat n) \<and>
             (\<forall>k < nat (2 * half_width n + 1). \<forall>i < H. \<forall>j < W.
                at3 x i j k =
                  (case fs (image_path to_str (in_dir (self s)) case_raw (c - half_width n + int k))
                   of Some b \<Rightarrow> at2 b i j | None \<Rightarrow> 0))"
proof -
  let ?cf = "join (in_dir (self s)) case_raw"
  let ?lo = "c - half_width n" and ?hi = "c + half_width n + 1"
  let ?ps = "enumerate_range ?lo ?hi"
  have size: "nat (?hi - ?lo) = nat (2 * half_width n + 1)" by simp
  have dist: "distinct (map fst ?ps)" by (simp add: enumerate_range_map_fst)
  have bound: "\<forall>k \<in> fst ` set ?ps. k < nat n"
  proof
    fix k assume "k \<in> fst ` set ?ps"
    then obtain i where "(k, i) \<in> set ?ps" by auto
    then have "k < nat (2 * half_width n + 1)"
      using enumerate_range_member [of k i ?lo ?hi] by simp
    with window_fits [OF assms(2)] show "k < nat n" by simp
  qed
  have shapes: "\<forall>(k, i) \<in> set ?ps. \<forall>b. fs (join ?cf (imaging_name (to_str i))) = Some b
                  \<longrightarrow> shape2 b = (H, W)"
  proof (intro ballI, clarify)
    fix k i b
    assume "(k, i) \<in> set ?ps" and b: "fs (join ?cf (imaging_name (to_str i))) = Some b"
    then have "k < nat (2 * half_width n + 1)" and "i = c - half_width n + int k"
      using enumerate_range_member [of k i ?lo ?hi] by simp_all
    with assms(7) b show "shape2 b = (H, W)" by (simp add: image_path_def)
  qed
  have zeros: "shape3 (np_zeros (H, W, nat n)) = (H, W, nat n)" by (simp add: np_zeros_def)
  from fill_channels_window [OF dist bound zeros shapes] obtain x where
    run: "fill_channels to_str fs ?cf ?ps (np_zeros (H, W, nat n)) = Inr x"
    and shape: "shape3 x = (H, W, nat n)"
    and chans: "\<forall>(k, i) \<in> set ?ps. \<forall>r < H. \<forall>c < W.
              at3 x r c k = (case fs (join ?cf (imaging_name (to_str i))) of
                                Some b \<Rightarrow> at2 b r c | None \<Rightarrow> at3 (np_zeros (H, W, nat n)) r c k)"
    by blast
  have self: "self s' = self s" using assms(3) by (rule get_slice_idx_self)
  have str: "get_slice_idx_str to_str case_raw s = (Inr (to_str c, c), s')"
    using assms(3) by (rule get_slice_idx_str_Inr)
  have cx: "np_load fs (join ?cf (imaging_name (to_str c))) = Inr cx"
    and cy: "np_load fs (join ?cf (segmentation_name (to_str c))) = Inr cy"
    using assms(4,5) by (simp_all add: np_load_def image_path_def mask_path_def)
  have "pseudo_load_slices to_str fs case_raw s = (Inr (Some (x, add_channel_axis cy)), s')"
    using assms(1,2,6) run
    by (simp add: pseudo_load_slices_def Let_def mbind_def str self attr_def lift_def cx cy
        add_channel_axis_def half_width_def)
  moreover have "\<forall>k < nat (2 * half_width n + 1). \<forall>i < H. \<forall>j < W.
                at3 x i j k =
                  (case fs (image_path to_str (in_dir (self s)) case_raw (c - half_width n + int k))
                   of Some b \<Rightarrow> at2 b i j | None \<Rightarrow> 0)"
  proof (intro allI impI)
    fix k i j
    assume k: "k < nat (2 * half_width n + 1)" and i: "i < H" and j: "j < W"
    from k have "(k, ?lo + int k) \<in> set ?ps"
      by (intro enumerate_range_nth) simp
    with chans i j show "at3 x i j k =
                  (case fs (image_path to_str (in_dir (self s)) case_raw (c - half_width n + int k))
                   of Some b \<Rightarrow> at2 b i j | None \<Rightarrow> 0)"
      by (auto simp: image_path_def np_zeros_def split: option.splits)
  qed
  ultimately show ?thesis using shape by blast
qed

theorem pseudo_load_slices_window_witness:
  "\<exists>x. pseudo_load_slices (parse_slice_idx_to_str 3) demo_fs ''case01''
          (demo_world (demo_pseudo_dataset 5))
        = (Inr (Some (x, add_channel_axis demo_mask)), demo_world (demo_pseudo_dataset 5)) \<and>
       shape3 x = (2, 2, 5) \<and>
       at3 x 1 1 0 = 53 \<and> at3 x 1 1 1 = 63 \<and> at3 x 1 1 2 = 73 \<and> at3 x 1 1 3 = 83 \<and>
       at3 x 0 0 4 = 0 \<and> at3 x 0 1 4 = 0 \<and> at3 x 1 0 4 = 0 \<and> at3 x 1 1 4 = 0"
proof -
  have hw: "half_width 5 = 2" by (simp add: half_width_def)
  have shapes: "\<forall>k < nat (2 * half_width 5 + 1). \<forall>b.
      demo_fs (image_path (parse_slice_idx_to_str 3) (in_dir (self (demo_world (demo_pseudo_dataset 5))))
        ''case01'' (7 - half_width 5 + int k)) = Some b \<longrightarrow> shape2 b = (2, 2)"
    by (auto simp: hw demo_fields demo_pseudo_fields demo_window_files demo_image_def
        dest!: less_5_cases)
  from pseudo_load_slices_window [of "demo_world (demo_pseudo_dataset 5)" 5 "''case01''" 7
      "demo_world (demo_pseudo_dataset 5)" demo_fs "parse_slice_idx_to_str 3" "demo_image 7"
      demo_mask 2 2, OF _ _ demo_pseudo_get_slice_idx _ _ _ shapes]
  obtain x where
    run: "pseudo_load_slices (parse_slice_idx_to_str 3) demo_fs ''case01''
            (demo_world (demo_pseudo_dataset 5))
          = (Inr (Some (x, add_channel_axis demo_mask)), demo_world (demo_pseudo_dataset 5))"
    and shape: "shape3 x = (2, 2, 5)"
    and chans: "\<forall>k < 5. \<forall>i < 2. \<forall>j < 2. at3 x i j k =
        (case demo_fs (image_path (parse_slice_idx_to_str 3) ''data'' ''case01'' (5 + int k))
         of Some b \<Rightarrow> at2 b i j | None \<Rightarrow> 0)"
    by (auto simp: hw demo_fields demo_pseudo_fields demo_window_files demo_image_def)
  have "at3 x 1 1 0 = 53" "at3 x 1 1 1 = 63" "at3 x 1 1 2 = 73" "at3 x 1 1 3 = 83"
    "at3 x 0 0 4 = 0" "at3 x 0 1 4 = 0" "at3 x 1 0 4 = 0" "at3 x 1 1 4 = 0"
    using chans [rule_format, of 0 1 1] chans [rule_format, of 1 1 1] chans [rule_format, of 2 1 1]
      chans [rule_format, of 3 1 1] chans [rule_format, of 4 0 0] chans [rule_format, of 4 0 1]
      chans [rule_format, of 4 1 0] chans [rule_format, of 4 1 1]
    by (simp_all add: demo_window_files demo_image_def)
  with run shape show ?thesis by blast
qed

subsection \<open>C7: the scenario with all the probability on one class\<close>

text \<open>
  C7: for a data set constructed with the catalog
  \<^verbatim>\<open>{"case01": {"bg": [0,1,2], "kidney": [5,6], "tumor": [7]}}\<close> and the sampling
  distribution \<open>[0, 0, 1]\<close>, every draw for \<^verbatim>\<open>case01\<close> samples the class \<^verbatim>\<open>tumor\<close>
  and returns the slice index \<open>7\<close>, for every state of the random source.
\<close>

theorem tumor_draw_deterministic:
  assumes "init ids dir demo_catalog tr pp [0, 0, 1] = Inr (self s)"
  shows "np_random_choice_p (classes (self s)) (sampling_distribution (self s)) s
           = (Inr ''tumor'', s\<lparr>rng := stl (rng s)\<rparr>) \<and>
         get_slice_idx ''case01'' s = (Inr 7, s\<lparr>rng := stl (stl (rng s))\<rparr>)"
proof -
  from assms have "self s = \<lparr>im_ids = ids, in_dir = dir, pos_slice_dict = demo_catalog,
      transforms = tr, preprocessing = pp, sampling_distribution = [0, 0, 1],
      classes = [''bg'', ''kidney'', ''tumor'']\<rparr>"
    by (simp add: init_result np_sum_def demo_catalog_def)
  then have "classes (self s) = [''bg'', ''kidney'', ''tumor'']"
    "sampling_distribution (self s) = [0, 0, 1]" "pos_slice_dict (self s) = demo_catalog"
    by simp_all
  then show ?thesis by (intro conjI draw_tumor)
qed

theorem tumor_draw_deterministic_witness:
  "np_random_choice_p (classes demo_dataset) (sampling_distribution demo_dataset)
     \<lparr>self = demo_dataset, rng = siterate Suc 41\<rparr>
     = (Inr ''tumor'', \<lparr>self = demo_dataset, rng = siterate Suc 42\<rparr>) \<and>
   get_slice_idx ''case01'' \<lparr>self = demo_dataset, rng = siterate Suc 41\<rparr>
     = (Inr 7, \<lparr>self = demo_dataset, rng = siterate Suc 43\<rparr>)"
  using tumor_draw_deterministic [of "[''case01'']" "''data''" None None
          "\<lparr>self = demo_dataset, rng = siterate Suc 41\<rparr>"]
  by (simp add: demo_init)

subsection \<open>C8: the types of the returned pair\<close>

text \<open>
  C8: whenever \<^verbatim>\<open>__getitem__\<close> of either class returns, it returns a pair of tensors, the
  image of element type float32 (\<^verbatim>\<open>.float()\<close>) and the mask of element type int64
  (\<^verbatim>\<open>.long()\<close>). The conversion step turns a numpy array into a tensor and passes a value
  that is already a tensor through unchanged.
\<close>

theorem getitem_returns_tensors:
  "(getitem to_str fs i s = (Inr (x, y), s') \<longrightarrow>
      (\<exists>t. x = Tensor t \<and> dtype3 t = Float32) \<and> (\<exists>t. y = Tensor t \<and> dtype3 t = Int64)) \<and>
   (pseudo_getitem to_str fs i u = (Inr (x, y), u') \<longrightarrow>
      (\<exists>t. x = Tensor t \<and> dtype3 t = Float32) \<and> (\<exists>t. y = Tensor t \<and> dtype3 t = Int64)) \<and>
   from_numpy_if_array (Tensor t) = Tensor t \<and>
   from_numpy_if_array (NdArray a) = Tensor a"
proof -
  have base: "(\<exists>t. x = Tensor t \<and> dtype3 t = Float32) \<and> (\<exists>t. y = Tensor t \<and> dtype3 t = Int64)"
    if "getitem to_str fs i s = (Inr (x, y), s')"
    using that unfolding getitem_def by (rule getitem_with_tensors)
  have pseudo: "(\<exists>t. x = Tensor t \<and> dtype3 t = Float32) \<and> (\<exists>t. y = Tensor t \<and> dtype3 t = Int64)"
    if "pseudo_getitem to_str fs i u = (Inr (x, y), u')"
    using that unfolding pseudo_getitem_def by (rule getitem_with_tensors)
  show ?thesis
    using base pseudo by (simp add: from_numpy_if_array_def)
qed

theorem getitem_returns_tensors_witness:
  "(\<exists>t. Tensor ((add_channel_axis (demo_image 7))\<lparr>dtype3 := Float32\<rparr>) = Tensor t \<and>
        dtype3 t = Float32) \<and>
   (\<exists>t. Tensor ((add_channel_axis demo_mask)
             \<lparr>dtype3 := Int64,
              at3 := (\<lambda>i j c. truncate (at3 (add_channel_axis demo_mask) i j c))\<rparr>) = Tensor t \<and>
        dtype3 t = Int64)"
  using getitem_returns_tensors [of "parse_slice_idx_to_str 3" demo_fs 0 "demo_world demo_dataset"
          "Tensor ((add_channel_axis (demo_image 7))\<lparr>dtype3 := Float32\<rparr>)"
          "Tensor ((add_channel_axis demo_mask)
             \<lparr>dtype3 := Int64,
              at3 := (\<lambda>i j c. truncate (at3 (add_channel_axis demo_mask) i j c))\<rparr>)"
          "demo_world demo_dataset"] demo_getitem
  by blast

subsection \<open>C4: a window of one slice is the single-slice load\<close>



subsection \<open>C9: no method changes the data set\<close>

text \<open>
  C9: after \<^verbatim>\<open>__getitem__\<close>, \<^verbatim>\<open>__len__\<close>, \<^verbatim>\<open>load_slices\<close>,
  \<^verbatim>\<open>get_slice_idx_str\<close>, \<^verbatim>\<open>get_slice_idx\<close> and
  \<^verbatim>\<open>apply_transforms_and_preprocessing\<close>, of either class and whether they return or
  raise, the object is the one before the call: its case identifiers, catalog, sampling
  distribution, class set and every other attribute. The only change of state is that
  the random source has given out at most two raw draws (none for \<^verbatim>\<open>__len__\<close> and the
  transform stage).
\<close>

theorem operations_leave_dataset_unchanged:
  "unchanged_but_entropy 2 s (snd (getitem to_str fs i s)) \<and>
   unchanged_but_entropy 2 u (snd (pseudo_getitem to_str fs i u)) \<and>
   unchanged_but_entropy 0 s (snd (len s)) \<and>
   unchanged_but_entropy 2 s (snd (load_slices to_str fs case_raw s)) \<and>
   unchanged_but_entropy 2 u (snd (pseudo_load_slices to_str fs case_raw u)) \<and>
   unchanged_but_entropy 2 s (snd (get_slice_idx_str to_str case_raw s)) \<and>
   unchanged_but_entropy 2 s (snd (get_slice_idx case_raw s)) \<and>
   unchanged_but_entropy 0 s (snd (apply_transforms_and_preprocessing x y s))"
proof -
  have "consumes 2 (getitem to_str fs i :: ('a dataset_scheme, payload \<times> payload) action)"
    unfolding getitem_def
    by (rule consumes_getitem_with)
       (intro consumes_then_pure consumes_load_slices consumes_return)
  moreover have "consumes 2
      (pseudo_getitem to_str fs i :: ('b pseudo_dataset_scheme, payload \<times> payload) action)"
    unfolding pseudo_getitem_def
    by (rule consumes_getitem_with) (rule consumes_pseudo_load_slices)
  ultimately show ?thesis
    using consumes_len [where ?'a = 'a] consumes_load_slices [of to_str fs case_raw, where ?'a = 'a]
      consumes_pseudo_load_slices [of to_str fs case_raw, where ?'a = 'b]
      consumes_get_slice_idx_str [of to_str case_raw, where ?'a = 'a]
      consumes_get_slice_idx [of case_raw, where ?'a = 'a]
      consumes_apply_transforms_and_preprocessing [of x y, where ?'a = 'a]
    unfolding consumes_def by blast
qed

theorem operations_leave_dataset_unchanged_witness:
  "self (snd (getitem (parse_slice_idx_to_str 3) demo_fs 0 (demo_world demo_dataset)))
     = demo_dataset \<and>
   self (snd (pseudo_getitem (parse_slice_idx_to_str 3) demo_fs 0
     (demo_world (demo_pseudo_dataset 5)))) = demo_pseudo_dataset 5 \<and>
   self (snd (get_slice_idx ''case01'' (demo_world demo_dataset))) = demo_dataset \<and>
   snd (len (demo_world demo_dataset)) = demo_world demo_dataset"
  using operations_leave_dataset_unchanged [where s = "demo_world demo_dataset"
          and u = "demo_world (demo_pseudo_dataset 5)" and to_str = "parse_slice_idx_to_str 3"
          and fs = demo_fs and i = 0 and case_raw = "''case01''"]
  by (simp add: unchanged_but_entropy_def demo_fields len_def)

subsection \<open>C10: a negative odd window size\<close>

text \<open>
  C10: for every negative odd \<^verbatim>\<open>num_pseudo_slices\<close> the oddness assertion passes, so the
  constructor succeeds whenever the constructor of the base class does; and a call of
  \<^verbatim>\<open>load_slices\<close> that draws an index and reads the center image and mask returns
  \<^verbatim>\<open>None\<close>, since neither branch on the window size applies.
\<close>

theorem negative_odd_window:
  assumes "n < 0" and "odd n"
  shows "(init ids dir psd tr pp sdist = Inr ds \<longrightarrow>
            (\<exists>pds. pseudo_init ids dir psd tr pp sdist n = Inr pds \<and> num_pseudo_slices pds = n)) \<and>
         (num_pseudo_slices (self s) = n \<and> get_slice_idx case_raw s = (Inr c, s') \<and>
          fs (join (join (in_dir (self s)) case_raw) (imaging_name (to_str c))) = Some cx \<and>
          fs (join (join (in_dir (self s)) case_raw) (segmentation_name (to_str c))) = Some cy \<longrightarrow>
            pseudo_load_slices to_str fs case_raw s = (Inr None, s'))"
proof (intro conjI impI)
  assume "init ids dir psd tr pp sdist = Inr ds"
  moreover have "n mod 2 = 1" using assms(2) by presburger
  ultimately show "\<exists>pds. pseudo_init ids dir psd tr pp sdist n = Inr pds \<and> num_pseudo_slices pds = n"
    by (simp add: pseudo_init_def)
next
  assume a: "num_pseudo_slices (self s) = n \<and> get_slice_idx case_raw s = (Inr c, s') \<and>
          fs (join (join (in_dir (self s)) case_raw) (imaging_name (to_str c))) = Some cx \<and>
          fs (join (join (in_dir (self s)) case_raw) (segmentation_name (to_str c))) = Some cy"
  then have self: "self s' = self s" using get_slice_idx_self by blast
  from a have str: "get_slice_idx_str to_str case_raw s = (Inr (to_str c, c), s')"
    by (simp add: get_slice_idx_str_Inr)
  show "pseudo_load_slices to_str fs case_raw s = (Inr None, s')"
    using a assms(1)
    by (simp add: pseudo_load_slices_def Let_def mbind_def str self attr_def lift_def
        np_load_Some)
qed

theorem negative_odd_window_witness:
  "(\<exists>pds. pseudo_init [''case01''] ''data'' demo_catalog None None [0, 0, 1] (- 3) = Inr pds \<and>
      num_pseudo_slices pds = - 3) \<and>
   pseudo_load_slices (parse_slice_idx_to_str 3) demo_fs ''case01''
     (demo_world (demo_pseudo_dataset (- 3))) = (Inr None, demo_world (demo_pseudo_dataset (- 3)))"
  using negative_odd_window [of "- 3" "[''case01'']" "''data''" demo_catalog None None "[0, 0, 1]"
          demo_dataset "demo_world (demo_pseudo_dataset (- 3))" "''case01''" 7
          "demo_world (demo_pseudo_dataset (- 3))" demo_fs "parse_slice_idx_to_str 3"
          "demo_image 7" demo_mask]
  by (simp add: demo_init demo_pseudo_get_slice_idx demo_fields demo_pseudo_fields demo_paths
      to_str_7 demo_fs_def)

end
